theory Spec2Isabelle
  imports Main "HOL-Library.AList"
begin

section \<open>Diagram vocabulary (server/prompts/sketch\_protocol.md)\<close>

text \<open>
  The output schema of the sketch protocol fixes the action kinds, the node types and the
  colours. Each enumeration of the schema is a datatype, in the schema's order.
\<close>

datatype node_type =
  Database | Server | Client | Storage | Network | Box | Circle | Cloud
  | Diamond | Hexagon | Person | Process | Data | Frame | Text | Note

datatype color =
  Yellow | Pink | Blue | Light_blue | Green | Light_green | Orange | Red
  | Violet | Black | White | Gray | Grey | Purple | Cyan | Teal

section \<open>Graph Store and Action Applier\<close>

text \<open>
  Modelled from the spec: the node, edge and graph state types and \<open>applyAction\<close> live in
  client/src/lib/graphLayout.ts, which is imported by AgentCanvas.tsx but is not part of the
  sources at hand. The records follow section 3 of the specification: a node has an id,
  a label, an optional description, a type, a colour and an optional parent id; an edge has
  an id, a source id, a target id and a direction flag; a graph state maps node ids to
  nodes and edge ids to edges with unique keys, iterated in insertion order (an
  association list updated in place, as a JavaScript \<open>Map\<close> is).
\<close>

record node =
  node_id :: string
  label :: string
  description :: "string option"
  ntype :: node_type
  color :: color
  parent_id :: "string option"

record edge =
  edge_id :: string
  source_id :: string
  target_id :: string
  bidirectional :: bool

record graph_state =
  nodes :: "(string \<times> node) list"
  edges :: "(string \<times> edge) list"

definition createGraphState :: graph_state where
  "createGraphState = \<lparr>nodes = [], edges = []\<rparr>"

text \<open>
  Modelled from the spec: an action is a tagged variant over the five kinds, carrying the
  fields relevant to its tag. \<open>update_node\<close> carries the id and the fields to overwrite
  (absent fields are left as they are).
\<close>

record node_patch =
  new_label :: "string option"
  new_description :: "string option"
  new_ntype :: "node_type option"
  new_color :: "color option"
  new_parent_id :: "string option"

datatype action =
  Create_node node
  | Update_node string node_patch
  | Delete_node string
  | Create_edge edge
  | Delete_edge string

text \<open>The two fields of an action that the canvas logs: \<open>action.action\<close> and \<open>action.id\<close>.\<close>

fun action_kind :: "action \<Rightarrow> string" where
  "action_kind (Create_node n) = ''create_node''"
| "action_kind (Update_node i p) = ''update_node''"
| "action_kind (Delete_node i) = ''delete_node''"
| "action_kind (Create_edge e) = ''create_edge''"
| "action_kind (Delete_edge i) = ''delete_edge''"

fun action_id :: "action \<Rightarrow> string" where
  "action_id (Create_node n) = node_id n"
| "action_id (Update_node i p) = i"
| "action_id (Delete_node i) = i"
| "action_id (Create_edge e) = edge_id e"
| "action_id (Delete_edge i) = i"

text \<open>
  Modelled from the spec: the helpers of \<open>applyAction\<close> (graphLayout.ts is not among the
  sources): whether an id resolves to a node, the overwrite of \<open>update_node\<close>, and the two
  parts of the cascade of \<open>delete_node\<close>.
\<close>

definition has_node :: "graph_state \<Rightarrow> string \<Rightarrow> bool" where
  "has_node g i = (map_of (nodes g) i \<noteq> None)"

definition patch_node :: "node_patch \<Rightarrow> node \<Rightarrow> node" where
  "patch_node p n =
     n\<lparr>label := (case new_label p of None \<Rightarrow> label n | Some l \<Rightarrow> l),
       description := (case new_description p of None \<Rightarrow> description n | Some d \<Rightarrow> Some d),
       ntype := (case new_ntype p of None \<Rightarrow> ntype n | Some t \<Rightarrow> t),
       color := (case new_color p of None \<Rightarrow> color n | Some c \<Rightarrow> c),
       parent_id := (case new_parent_id p of None \<Rightarrow> parent_id n | Some q \<Rightarrow> Some q)\<rparr>"

definition clear_parent :: "string \<Rightarrow> node \<Rightarrow> node" where
  "clear_parent i n = (if parent_id n = Some i then n\<lparr>parent_id := None\<rparr> else n)"

definition touches :: "string \<Rightarrow> edge \<Rightarrow> bool" where
  "touches i e = (source_id e = i \<or> target_id e = i)"

text \<open>
  Modelled from the spec: \<open>apply(graph, action) \<rightarrow> bool\<close> of section 4.2, which the canvas
  calls as \<open>applyAction(graphState, action)\<close>. The graph is mutated in place by the
  source; here the new graph is returned beside the success flag.
  \<^item> \<open>create_node\<close> inserts or overwrites by id and always succeeds;
  \<^item> \<open>update_node\<close> succeeds only if the id exists, and otherwise leaves the graph alone;
  \<^item> \<open>delete_node\<close> removes the node, every edge whose source or target is the id, and
    the parent link of every node pointing to it; it succeeds even if the id is absent;
  \<^item> \<open>create_edge\<close> succeeds only if both endpoints are existing nodes, and otherwise
    leaves the graph alone;
  \<^item> \<open>delete_edge\<close> removes by id and succeeds even if the id is absent.
\<close>

fun applyAction :: "graph_state \<Rightarrow> action \<Rightarrow> bool \<times> graph_state" where
  "applyAction g (Create_node n) =
     (True, g\<lparr>nodes := AList.update (node_id n) n (nodes g)\<rparr>)"
| "applyAction g (Update_node i p) =
     (case map_of (nodes g) i of
        None \<Rightarrow> (False, g)
      | Some n \<Rightarrow> (True, g\<lparr>nodes := AList.update i (patch_node p n) (nodes g)\<rparr>))"
| "applyAction g (Delete_node i) =
     (True, g\<lparr>nodes := map (\<lambda>(k, n). (k, clear_parent i n)) (AList.delete i (nodes g)),
              edges := filter (\<lambda>(k, e). \<not> touches i e) (edges g)\<rparr>)"
| "applyAction g (Create_edge e) =
     (if has_node g (source_id e) \<and> has_node g (target_id e)
      then (True, g\<lparr>edges := AList.update (edge_id e) e (edges g)\<rparr>)
      else (False, g))"
| "applyAction g (Delete_edge i) =
     (True, g\<lparr>edges := AList.delete i (edges g)\<rparr>)"

text \<open>Sample data: a frame holding a server, a database, and two edges at the frame.\<close>

definition mk_node :: "string \<Rightarrow> node_type \<Rightarrow> string option \<Rightarrow> node" where
  "mk_node i t p =
     \<lparr>node_id = i, label = i, description = None, ntype = t, color = Blue, parent_id = p\<rparr>"

definition mk_edge :: "string \<Rightarrow> string \<Rightarrow> string \<Rightarrow> edge" where
  "mk_edge i s t = \<lparr>edge_id = i, source_id = s, target_id = t, bidirectional = False\<rparr>"

definition sample_graph :: graph_state where
  "sample_graph =
     \<lparr>nodes = [(''grp'', mk_node ''grp'' Frame None),
               (''api'', mk_node ''api'' Server (Some ''grp'')),
               (''db'', mk_node ''db'' Database None)],
      edges = [(''e1'', mk_edge ''e1'' ''grp'' ''db''),
               (''e2'', mk_edge ''e2'' ''api'' ''grp''),
               (''e3'', mk_edge ''e3'' ''api'' ''db'')]\<rparr>"

section \<open>Schema-Validated Reasoner\<close>

datatype reasoning_error = ReasoningFailure

text \<open>
  The request sent to the provider: the first one carries the transcript and the graph
  summary; a corrective one carries, besides, the previous invalid output and its
  validation error.
\<close>

datatype prompt =
  Initial_request string string
  | Corrective_request string string string string

text \<open>
  Modelled from the spec: \<open>reason\<close> lives in server/agent/reasoning.py, which is not part of
  the sources at hand. Section 4.3 of the specification gives the algorithm: build the
  request from the transcript and the graph summary, submit it, validate the raw answer
  against the action-list schema; on a validation failure submit a corrective request that
  carries the previous invalid output and the validation error; repeat up to the retry
  budget; on exhaustion surface \<open>ReasoningFailure\<close>.

  The provider is an external service whose answer may differ from call to call, so its
  answer depends on the number of the call as well as on the request: \<open>generate n q\<close> is
  the raw text of the \<open>n\<close>-th call (counted from 1). The schema validator is a parameter:
  \<open>Inl\<close> carries the validation error, \<open>Inr\<close> the validated action list. The budget is
  the configured maximum number of attempts. The result is paired with the number of
  calls made to the provider. \<open>reason_loop\<close> is the loop with \<open>k\<close> attempts left after \<open>n\<close>
  calls.
\<close>

fun reason_loop ::
  "(nat \<Rightarrow> prompt \<Rightarrow> string) \<Rightarrow> (string \<Rightarrow> string + action list) \<Rightarrow> string \<Rightarrow> string
    \<Rightarrow> nat \<Rightarrow> nat \<Rightarrow> prompt \<Rightarrow> nat \<times> (reasoning_error + action list)" where
  "reason_loop generate validate transcript summary 0 n q = (n, Inl ReasoningFailure)"
| "reason_loop generate validate transcript summary (Suc k) n q =
     (let raw = generate (Suc n) q in
      case validate raw of
        Inr acts \<Rightarrow> (Suc n, Inr acts)
      | Inl err \<Rightarrow>
          reason_loop generate validate transcript summary k (Suc n)
            (Corrective_request transcript summary raw err))"

text \<open>
  Modelled from the spec: \<open>reason(transcript, graph_summary)\<close> of section 4.3, with the
  provider, the validator and the budget as parameters.
\<close>

definition reason ::
  "(nat \<Rightarrow> prompt \<Rightarrow> string) \<Rightarrow> (string \<Rightarrow> string + action list) \<Rightarrow> nat \<Rightarrow> string \<Rightarrow> string
    \<Rightarrow> nat \<times> (reasoning_error + action list)" where
  "reason generate validate budget transcript summary =
     reason_loop generate validate transcript summary budget 0
       (Initial_request transcript summary)"

text \<open>
  The requests and answers of one run, in the specification's words: the first attempt is
  submitted the initial request; each later attempt is submitted the corrective request
  made of the previous attempt's output and of its validation error. \<open>attempt_prompt n\<close>
  is the request of attempt \<open>n + 1\<close>, \<open>attempt_output i\<close> the provider's answer at attempt
  \<open>i\<close> (counted from 1), as long as the attempts before it were invalid.
\<close>

fun attempt_prompt ::
  "(nat \<Rightarrow> prompt \<Rightarrow> string) \<Rightarrow> (string \<Rightarrow> string + action list) \<Rightarrow> string \<Rightarrow> string
    \<Rightarrow> nat \<Rightarrow> prompt" where
  "attempt_prompt generate validate transcript summary 0 = Initial_request transcript summary"
| "attempt_prompt generate validate transcript summary (Suc n) =
     (let raw = generate (Suc n) (attempt_prompt generate validate transcript summary n) in
      Corrective_request transcript summary raw
        (case validate raw of Inl err \<Rightarrow> err | Inr acts \<Rightarrow> []))"

definition attempt_output ::
  "(nat \<Rightarrow> prompt \<Rightarrow> string) \<Rightarrow> (string \<Rightarrow> string + action list) \<Rightarrow> string \<Rightarrow> string
    \<Rightarrow> nat \<Rightarrow> string" where
  "attempt_output generate validate transcript summary i =
     generate i (attempt_prompt generate validate transcript summary (i - 1))"

text \<open>
  Sample providers and validator: the only schema-valid text is \<open>[]\<close> (the empty action
  list); \<open>flaky_provider\<close> answers with it from the third call on, \<open>broken_provider\<close>
  never does, and \<open>correcting_provider\<close> does as soon as it is sent a corrective request.
\<close>

definition correcting_provider :: "nat \<Rightarrow> prompt \<Rightarrow> string" where
  "correcting_provider n q =
     (case q of Initial_request t g \<Rightarrow> ''I think'' | Corrective_request t g raw err \<Rightarrow> ''[]'')"

definition sample_validate :: "string \<Rightarrow> string + action list" where
  "sample_validate raw = (if raw = ''[]'' then Inr [] else Inl ''not an action list'')"

definition flaky_provider :: "nat \<Rightarrow> prompt \<Rightarrow> string" where
  "flaky_provider n q = (if n < 3 then ''I think'' else ''[]'')"

definition broken_provider :: "nat \<Rightarrow> prompt \<Rightarrow> string" where
  "broken_provider n q = ''I think''"

section \<open>Rate Limiter\<close>

text \<open>
  Modelled from the spec: the limiter lives in server/middleware/rate\_limit.py, which is
  not part of the sources at hand. Section 4.5 of the specification: per identity, the
  timestamps of the admitted requests of the trailing window are kept; a check discards
  the timestamps older than the window, admits iff the remaining count is below the
  maximum, and records the new timestamp on admission. The clock is an argument of the
  check; an identity without an entry has the empty sequence. \<open>prune\<close> discards the
  timestamps older than the window: those whose age \<open>now - t\<close> exceeds it.
\<close>

definition prune :: "nat \<Rightarrow> nat \<Rightarrow> nat list \<Rightarrow> nat list" where
  "prune window now ts = filter (\<lambda>t. now \<le> t + window) ts"

text \<open>
  Modelled from the spec: \<open>allow(identity)\<close> of section 4.5, with the window, the maximum,
  the windows of all identities and the current time as arguments; the updated windows
  are returned beside the decision.
\<close>

definition allow ::
  "nat \<Rightarrow> nat \<Rightarrow> ('i \<Rightarrow> nat list) \<Rightarrow> 'i \<Rightarrow> nat \<Rightarrow> bool \<times> ('i \<Rightarrow> nat list)" where
  "allow window maxn st i now =
     (let kept = prune window now (st i) in
      if length kept < maxn then (True, st(i := kept @ [now])) else (False, st(i := kept)))"

text \<open>A sequence of checks of one identity, at the given times, and their decisions.\<close>

fun allow_all ::
  "nat \<Rightarrow> nat \<Rightarrow> ('i \<Rightarrow> nat list) \<Rightarrow> 'i \<Rightarrow> nat list \<Rightarrow> bool list \<times> ('i \<Rightarrow> nat list)" where
  "allow_all window maxn st i [] = ([], st)"
| "allow_all window maxn st i (now # rest) =
     (let (ok, st1) = allow window maxn st i now;
          (oks, st2) = allow_all window maxn st1 i rest
      in (ok # oks, st2))"

definition no_requests :: "string \<Rightarrow> nat list" where
  "no_requests i = []"

section \<open>The canvas client (client/src/pages/AgentCanvas.tsx)\<close>

subsection \<open>State of the component\<close>

datatype agent_status = Idle | Listening | Transcribing | Reasoning | Rendering | Error

datatype save_status = Saved | Saving | Unsaved

datatype ready_state = CONNECTING | OPEN | CLOSING | CLOSED

text \<open>A \<open>Blob\<close> is its bytes; its \<open>size\<close> is their number.\<close>

type_synonym blob = "nat list"

text \<open>
  What the client sends on the socket: the two JSON messages, with the value of their
  \<open>type\<close> field, and the binary audio. \<open>'s\<close> is the result of \<open>serializeGraphState\<close>,
  \<open>'d\<close> the document of the editor's snapshot.
\<close>

datatype ('s, 'd) outbound =
  Canvas_sync 'd 's
  | Graph_sync 's
  | Audio blob

fun outbound_kind :: "('s, 'd) outbound \<Rightarrow> string option" where
  "outbound_kind (Canvas_sync d g) = Some ''canvas_sync''"
| "outbound_kind (Graph_sync g) = Some ''graph_sync''"
| "outbound_kind (Audio b) = None"

text \<open>
  What the client receives. \<open>JSON.parse\<close> is the platform's: the handlers take it as a
  parameter \<open>parse\<close>, with \<open>None\<close> for a thrown \<open>SyntaxError\<close>. A parsed value is read
  through its \<open>type\<close> field: \<open>Null_msg\<close> is the parsed value \<open>null\<close>, on which reading
  \<open>data.type\<close> throws a \<open>TypeError\<close> that the same \<open>catch\<close> receives; a message has the
  shape its TypeScript type gives it (the actions of an \<open>actions\<close> message are a
  \<open>SketchResponse['actions']\<close>); \<open>Other_msg\<close> is any other value, which matches no case of
  the switch.
\<close>

datatype server_msg =
  Null_msg
  | Connected string
  | Transcript string
  | Actions "action list"
  | Server_error string
  | Other_msg

datatype ws_data = String_data string | Binary_data blob

datatype timer_callback = Set_status_idle | Sync_canvas

record timer =
  timer_id :: nat
  delay :: nat
  callback :: timer_callback

datatype log_entry =
  Log_connected
  | Log_welcome string
  | Log_server_error string
  | Log_ws_error
  | Log_received "action list"
  | Log_nodes_before "string list"
  | Log_applied bool string string
  | Log_nodes_after "string list"
  | Log_rendering nat nat
  | Log_layout_error
  | Log_recording_error

text \<open>
  The React state and refs of \<open>AgentCanvas\<close>, and the effects it has on the outside:
  the frames sent on the socket, the pending timeouts, the console, and the calls of
  \<open>layoutGraph\<close> whose promise is not settled yet. \<open>'e\<close> is the tldraw editor, which
  Tldraw mounts once.

  \<open>ws.onmessage\<close> is assigned inside the effect whose dependencies are \<open>[session]\<close>, and
  calls the \<open>handleActions\<close> of the render in which that effect ran. The \<open>editor\<close> that
  this \<open>handleActions\<close> closes over is the one of that render: \<open>null\<close> if the effect ran
  before the editor was mounted, whatever happened since. \<open>handlerSeesEditor\<close> records
  whether the closure held by \<open>ws.onmessage\<close> saw the editor.
\<close>

record ('e, 's, 'd) canvas =
  editor :: "'e option"
  transcript :: string
  isConnected :: bool
  isRecording :: bool
  status :: agent_status
  saveStatus :: save_status
  graphStateRef :: graph_state
  wsRef :: "ready_state option"
  sent :: "('s, 'd) outbound list"
  audioChunks :: "blob list"
  autoSaveTimer :: "nat option"
  timers :: "timer list"
  next_timer :: nat
  console :: "log_entry list"
  layoutRequests :: "graph_state list"
  handlerSeesEditor :: bool

text \<open>The state of the first render: every \<open>useState\<close> and \<open>useRef\<close> at its initial value.\<close>

definition initial_canvas :: "('e, 's, 'd) canvas" where
  "initial_canvas =
     \<lparr>editor = None, transcript = [], isConnected = False, isRecording = False,
      status = Idle, saveStatus = Saved, graphStateRef = createGraphState, wsRef = None,
      sent = [], audioChunks = [], autoSaveTimer = None, timers = [], next_timer = 1,
      console = [], layoutRequests = [], handlerSeesEditor = False\<rparr>"

text \<open>\<open>Tldraw\<close> calls \<open>onMount\<close>, which is \<open>setEditor\<close>.\<close>

definition onMount :: "'e \<Rightarrow> ('e, 's, 'd) canvas \<Rightarrow> ('e, 's, 'd) canvas" where
  "onMount e st = st\<lparr>editor := Some e\<rparr>"

text \<open>
  The \<open>editor\<close> of the closures that \<open>ws.onmessage\<close> reaches (\<open>handleActions\<close>, and the
  \<open>syncCanvas\<close> of the same render): the mounted editor if the closure saw it, \<open>null\<close>
  otherwise.
\<close>

definition closure_editor :: "('e, 's, 'd) canvas \<Rightarrow> 'e option" where
  "closure_editor st = (if handlerSeesEditor st then editor st else None)"

record ('n, 'm) layout =
  layout_nodes :: "'n list"
  layout_edges :: "'m list"

datatype ('n, 'm) settled = Resolved "('n, 'm) layout" | Rejected

subsection \<open>Timeouts\<close>

definition setTimeout ::
  "timer_callback \<Rightarrow> nat \<Rightarrow> ('e, 's, 'd) canvas \<Rightarrow> nat \<times> ('e, 's, 'd) canvas" where
  "setTimeout cb ms st =
     (next_timer st,
      st\<lparr>timers := timers st @ [\<lparr>timer_id = next_timer st, delay = ms, callback = cb\<rparr>],
         next_timer := Suc (next_timer st)\<rparr>)"

definition clearTimeout :: "nat \<Rightarrow> ('e, 's, 'd) canvas \<Rightarrow> ('e, 's, 'd) canvas" where
  "clearTimeout t st = st\<lparr>timers := filter (\<lambda>x. timer_id x \<noteq> t) (timers st)\<rparr>"

subsection \<open>Applying actions and rendering\<close>

definition console_log :: "log_entry list \<Rightarrow> ('e, 's, 'd) canvas \<Rightarrow> ('e, 's, 'd) canvas" where
  "console_log es st = st\<lparr>console := console st @ es\<rparr>"

text \<open>
  The \<open>for\<close> loop of \<open>handleActions\<close>: each action is handed to \<open>applyAction\<close>, which
  mutates the graph and returns its success, and one line is logged per action. The
  handlers take \<open>applyAction\<close> as the parameter \<open>applier\<close>.
\<close>

fun apply_loop ::
  "(graph_state \<Rightarrow> action \<Rightarrow> bool \<times> graph_state) \<Rightarrow> graph_state \<Rightarrow> action list
    \<Rightarrow> graph_state \<times> log_entry list" where
  "apply_loop applier g [] = (g, [])"
| "apply_loop applier g (a # rest) =
     (let (success, g1) = applier g a;
          (g2, entries) = apply_loop applier g1 rest
      in (g2, Log_applied success (action_kind a) (action_id a) # entries))"

text \<open>
  \<open>handleActions\<close>, as \<open>ws.onmessage\<close> calls it, up to the call of \<open>layoutGraph\<close>; the
  \<open>then\<close> and \<open>catch\<close> callbacks of the promise run later, and are \<open>layout_settled\<close>
  below. Its \<open>editor\<close> is the one of its closure.
\<close>

definition handleActions ::
  "(graph_state \<Rightarrow> action \<Rightarrow> bool \<times> graph_state) \<Rightarrow> ('e, 's, 'd) canvas \<Rightarrow> action list
    \<Rightarrow> ('e, 's, 'd) canvas" where
  "handleActions applier st actions =
     (if closure_editor st = None \<or> length actions = 0 then st\<lparr>status := Idle\<rparr>
      else
        let st1 = st\<lparr>status := Rendering\<rparr>;
            st2 = console_log [Log_received actions,
                       Log_nodes_before (map fst (nodes (graphStateRef st1)))] st1;
            (g, entries) = apply_loop applier (graphStateRef st2) actions;
            st3 = console_log entries (st2\<lparr>graphStateRef := g\<rparr>);
            st4 = console_log [Log_nodes_after (map fst (nodes g))] st3
        in st4\<lparr>layoutRequests := layoutRequests st4 @ [g]\<rparr>)"

definition layout_catch :: "('e, 's, 'd) canvas \<Rightarrow> ('e, 's, 'd) canvas" where
  "layout_catch st = (console_log [Log_layout_error] st)\<lparr>status := Error\<rparr>"

text \<open>
  The promise of the oldest pending \<open>layoutGraph\<close> call settles. \<open>renderLayout\<close> is in
  client/src/lib/tldrawShapes.ts and is a parameter: it draws on the editor, and \<open>None\<close>
  is an exception thrown by it, which the \<open>catch\<close> of the promise chain receives as it
  receives a rejection of \<open>layoutGraph\<close>. The callback closes over the editor that
  \<open>handleActions\<close> found in its closure, which is the mounted one; a state without an
  editor has no pending call, and is sent to the \<open>catch\<close> branch to keep the function total.
\<close>

definition layout_settled ::
  "('e \<Rightarrow> 'n list \<Rightarrow> 'm list \<Rightarrow> 'e option) \<Rightarrow> ('e, 's, 'd) canvas \<Rightarrow> ('n, 'm) settled
    \<Rightarrow> ('e, 's, 'd) canvas" where
  "layout_settled renderLayout st outcome =
     (let st0 = st\<lparr>layoutRequests := tl (layoutRequests st)\<rparr> in
      case outcome of
        Rejected \<Rightarrow> layout_catch st0
      | Resolved l \<Rightarrow>
          (let st1 = console_log [Log_rendering (length (layout_nodes l)) (length (layout_edges l))] st0
           in case editor st1 of
                None \<Rightarrow> layout_catch st1
              | Some e \<Rightarrow>
                  (case renderLayout e (layout_nodes l) (layout_edges l) of
                     None \<Rightarrow> layout_catch st1
                   | Some e' \<Rightarrow>
                       (let st2 = st1\<lparr>editor := Some e', status := Idle, saveStatus := Unsaved\<rparr>;
                            st3 = (case autoSaveTimer st2 of
                                     None \<Rightarrow> st2
                                   | Some t \<Rightarrow> if t \<noteq> 0 then clearTimeout t st2 else st2);
                            (t', st4) = setTimeout Sync_canvas 3000 st3
                        in st4\<lparr>autoSaveTimer := Some t'\<rparr>))))"

subsection \<open>The socket\<close>

text \<open>
  \<open>wsRef\<close> holds the \<open>readyState\<close> of the socket, which the platform moves: it is
  \<open>OPEN\<close> when \<open>onopen\<close> runs and \<open>CLOSED\<close> when \<open>onclose\<close> runs.
\<close>

text \<open>
  The effect of lines 47 to 99, run after the first render and after each render in which
  \<open>session\<close> has changed: without an access token it does nothing; otherwise it opens a
  socket (closing the previous one in its cleanup) and assigns the handlers, which close
  over the \<open>handleActions\<close> of that render. The first render is \<open>initial_canvas\<close>, whose
  editor is \<open>null\<close>.
\<close>

definition session_effect :: "bool \<Rightarrow> ('e, 's, 'd) canvas \<Rightarrow> ('e, 's, 'd) canvas" where
  "session_effect has_token st =
     (if \<not> has_token then st
      else st\<lparr>wsRef := Some CONNECTING, handlerSeesEditor := (editor st \<noteq> None)\<rparr>)"

definition ws_onopen :: "('e, 's, 'd) canvas \<Rightarrow> ('e, 's, 'd) canvas" where
  "ws_onopen st = (console_log [Log_connected] st)\<lparr>isConnected := True, status := Idle, wsRef := Some OPEN\<rparr>"

definition startsWith :: "string \<Rightarrow> string \<Rightarrow> bool" where
  "startsWith s p = (take (length p) s = p)"

text \<open>
  The \<open>catch\<close> block of \<open>ws.onmessage\<close>: a string that does not start with \<open>{\<close> is taken
  as a transcript.
\<close>

definition onmessage_catch :: "('e, 's, 'd) canvas \<Rightarrow> ws_data \<Rightarrow> ('e, 's, 'd) canvas" where
  "onmessage_catch st ev =
     (case ev of
        Binary_data b \<Rightarrow> st
      | String_data s \<Rightarrow>
          if \<not> startsWith s ''{'' then st\<lparr>transcript := s, status := Reasoning\<rparr> else st)"

text \<open>
  \<open>ws.onmessage\<close>. Binary data is not JSON text, so \<open>JSON.parse\<close> throws on it and the
  \<open>catch\<close> block leaves it alone.
\<close>

definition ws_onmessage ::
  "(string \<Rightarrow> server_msg option) \<Rightarrow> (graph_state \<Rightarrow> action \<Rightarrow> bool \<times> graph_state)
    \<Rightarrow> ('e, 's, 'd) canvas \<Rightarrow> ws_data \<Rightarrow> ('e, 's, 'd) canvas" where
  "ws_onmessage parse applier st ev =
     (case ev of
        Binary_data b \<Rightarrow> onmessage_catch st ev
      | String_data s \<Rightarrow>
          (case parse s of
             None \<Rightarrow> onmessage_catch st ev
           | Some Null_msg \<Rightarrow> onmessage_catch st ev
           | Some (Connected m) \<Rightarrow> console_log [Log_welcome m] st
           | Some (Transcript t) \<Rightarrow> st\<lparr>transcript := t, status := Reasoning\<rparr>
           | Some (Actions acts) \<Rightarrow> handleActions applier st acts
           | Some (Server_error m) \<Rightarrow>
               snd (setTimeout Set_status_idle 3000
                      ((console_log [Log_server_error m] st)\<lparr>status := Error\<rparr>))
           | Some Other_msg \<Rightarrow> st))"

definition ws_onerror :: "('e, 's, 'd) canvas \<Rightarrow> ('e, 's, 'd) canvas" where
  "ws_onerror st = (console_log [Log_ws_error] st)\<lparr>isConnected := False, status := Error\<rparr>"

definition ws_onclose :: "('e, 's, 'd) canvas \<Rightarrow> ('e, 's, 'd) canvas" where
  "ws_onclose st = st\<lparr>isConnected := False, wsRef := Some CLOSED\<rparr>"

text \<open>
  \<open>syncCanvas\<close>, which only the timeout set by \<open>handleActions\<close> calls: its \<open>editor\<close> is the
  one of the same closure.
\<close>

definition syncCanvas ::
  "('e \<Rightarrow> 'd) \<Rightarrow> ('d \<Rightarrow> graph_state) \<Rightarrow> (graph_state \<Rightarrow> 's) \<Rightarrow> ('e, 's, 'd) canvas
    \<Rightarrow> ('e, 's, 'd) canvas" where
  "syncCanvas getSnapshot extractGraphFromSnapshot serializeGraphState st =
     (case closure_editor st of
        None \<Rightarrow> st
      | Some e \<Rightarrow>
          if wsRef st \<noteq> Some OPEN then st
          else
            let document = getSnapshot e;
                graphState = extractGraphFromSnapshot document
            in st\<lparr>saveStatus := Saved, graphStateRef := graphState,
                  sent := sent st @ [Canvas_sync document (serializeGraphState graphState)]\<rparr>)"

text \<open>A pending timeout fires: it leaves the pending set and its callback runs.\<close>

definition timeout_fires ::
  "('e \<Rightarrow> 'd) \<Rightarrow> ('d \<Rightarrow> graph_state) \<Rightarrow> (graph_state \<Rightarrow> 's) \<Rightarrow> ('e, 's, 'd) canvas \<Rightarrow> nat
    \<Rightarrow> ('e, 's, 'd) canvas" where
  "timeout_fires getSnapshot extractGraphFromSnapshot serializeGraphState st t =
     (case find (\<lambda>x. timer_id x = t) (timers st) of
        None \<Rightarrow> st
      | Some x \<Rightarrow>
          (case callback x of
             Set_status_idle \<Rightarrow> (clearTimeout t st)\<lparr>status := Idle\<rparr>
           | Sync_canvas \<Rightarrow>
               syncCanvas getSnapshot extractGraphFromSnapshot serializeGraphState
                 (clearTimeout t st)))"

subsection \<open>Recording\<close>

text \<open>
  \<open>startRecording\<close>: \<open>media_ok\<close> tells whether \<open>getUserMedia\<close> and the construction of
  the \<open>MediaRecorder\<close> went through; otherwise the \<open>catch\<close> block runs.
\<close>

definition startRecording :: "bool \<Rightarrow> ('e, 's, 'd) canvas \<Rightarrow> ('e, 's, 'd) canvas" where
  "startRecording media_ok st =
     (if wsRef st = None \<or> \<not> isConnected st then st
      else
        let st1 = st\<lparr>isRecording := True, status := Listening, transcript := [],
                     audioChunks := []\<rparr>
        in if media_ok then st1
           else (console_log [Log_recording_error] st1)\<lparr>isRecording := False, status := Error\<rparr>)"

definition ondataavailable :: "('e, 's, 'd) canvas \<Rightarrow> blob \<Rightarrow> ('e, 's, 'd) canvas" where
  "ondataavailable st chunk =
     (if length chunk > 0 then st\<lparr>audioChunks := audioChunks st @ [chunk]\<rparr> else st)"

text \<open>
  \<open>mediaRecorder.onstop\<close>: the chunks are joined into one blob; with an open socket and a
  non-empty blob the graph is serialized and sent, then the blob. (The tracks of the
  microphone stream are stopped in both branches; the microphone is not part of the state.)
\<close>

definition onstop :: "(graph_state \<Rightarrow> 's) \<Rightarrow> ('e, 's, 'd) canvas \<Rightarrow> ('e, 's, 'd) canvas" where
  "onstop serializeGraphState st =
     (let audioBlob = concat (audioChunks st) in
      if wsRef st = Some OPEN \<and> length audioBlob > 0 then
        let st1 = st\<lparr>status := Transcribing\<rparr>;
            graphSync = serializeGraphState (graphStateRef st1);
            st2 = st1\<lparr>sent := sent st1 @ [Graph_sync graphSync]\<rparr>
        in st2\<lparr>sent := sent st2 @ [Audio audioBlob]\<rparr>
      else st\<lparr>status := Idle\<rparr>)"

definition stopRecording :: "('e, 's, 'd) canvas \<Rightarrow> ('e, 's, 'd) canvas" where
  "stopRecording st = st\<lparr>isRecording := False\<rparr>"

text \<open>
  One capture round with nothing else in between: the recording starts, the recorder
  delivers its chunks, the user stops, and the recorder's \<open>onstop\<close> runs.
\<close>

definition capture_round ::
  "(graph_state \<Rightarrow> 's) \<Rightarrow> blob list \<Rightarrow> ('e, 's, 'd) canvas \<Rightarrow> ('e, 's, 'd) canvas" where
  "capture_round serializeGraphState chunks st =
     onstop serializeGraphState
       (stopRecording (foldl ondataavailable (startRecording True st) chunks))"

text \<open>
  The message kinds of the wire protocol as section 6 of the specification lists them,
  in both directions (the binary audio has no kind).
\<close>

definition spec_wire_kinds :: "string list" where
  "spec_wire_kinds = [''canvas_sync'', ''connected'', ''transcript'', ''actions'', ''error'']"


text \<open>
  The graph that the first \<open>k\<close> actions of a batch leave behind, whatever their
  outcomes: the reference against which the loop of \<open>handleActions\<close> is stated.
\<close>

definition graph_after ::
  "(graph_state \<Rightarrow> action \<Rightarrow> bool \<times> graph_state) \<Rightarrow> graph_state \<Rightarrow> action list \<Rightarrow> nat
    \<Rightarrow> graph_state" where
  "graph_after applier g acts k = fold (\<lambda>a h. snd (applier h a)) (take k acts) g"

text \<open>
  Sample states, each reached from the first render (the editor is a list of the layouts
  drawn on it). \<open>connected_canvas\<close>: the editor mounts, the session is renewed, so that the
  effect runs again and the handlers see the editor, and the socket opens.
  \<open>stale_canvas\<close>: the session stays as it is, so that the handlers are those of the
  first render. \<open>unmounted_canvas\<close>: the socket opens before any editor is mounted. Then
  the same clients in the state \<open>reasoning\<close> or recording, and the batch of the
  specification's scenario.
\<close>

definition connected_canvas ::
  "((string list \<times> string list) list, graph_state, unit) canvas" where
  "connected_canvas =
     ws_onopen (session_effect True (onMount [] (session_effect True initial_canvas)))"

definition stale_canvas ::
  "((string list \<times> string list) list, graph_state, unit) canvas" where
  "stale_canvas = ws_onopen (onMount [] (session_effect True initial_canvas))"

definition unmounted_canvas ::
  "((string list \<times> string list) list, graph_state, unit) canvas" where
  "unmounted_canvas = ws_onopen (session_effect True initial_canvas)"

definition sample_render ::
  "(string list \<times> string list) list \<Rightarrow> string list \<Rightarrow> string list
    \<Rightarrow> (string list \<times> string list) list option" where
  "sample_render e ns es = Some (e @ [(ns, es)])"

definition reasoning_canvas ::
  "((string list \<times> string list) list, graph_state, unit) canvas" where
  "reasoning_canvas = connected_canvas\<lparr>status := Reasoning\<rparr>"

definition listening_canvas ::
  "blob list \<Rightarrow> ((string list \<times> string list) list, graph_state, unit) canvas" where
  "listening_canvas chunks =
     connected_canvas\<lparr>isRecording := True, status := Listening, audioChunks := chunks\<rparr>"

definition sample_layout :: "(string, string) layout" where
  "sample_layout = \<lparr>layout_nodes = [''a'', ''b''], layout_edges = [''e'']\<rparr>"

definition scenario_batch :: "action list" where
  "scenario_batch =
     [Create_node (mk_node ''a'' Box None), Create_node (mk_node ''b'' Box None),
      Create_edge (mk_edge ''e'' ''a'' ''b'')]"

section \<open>Properties of the Action Applier\<close>

lemma delete_node_edges:
  "\<forall>e \<in> snd ` set (edges (snd (applyAction g (Delete_node n)))). \<not> touches n e"
  by auto

lemma delete_node_parents:
  "\<forall>m \<in> snd ` set (nodes (snd (applyAction g (Delete_node n)))). parent_id m \<noteq> Some n"
  by (auto simp: clear_parent_def split: if_splits)

lemma delete_node_gone: "\<not> has_node (snd (applyAction g (Delete_node n))) n"
proof -
  have "n \<notin> fst ` set (map (\<lambda>(k, m). (k, clear_parent n m)) (AList.delete n (nodes g)))"
    by (auto simp: AList.delete_eq)
  then show ?thesis
    by (simp add: has_node_def map_of_eq_None_iff)
qed

text \<open>
  C2 (cascade completeness). After \<open>delete_node\<close> on an id \<open>n\<close> present in the graph, the
  action has succeeded, the node is gone, no edge of the result has \<open>n\<close> as its source or
  its target, and no node of the result has \<open>n\<close> as its parent.
\<close>

theorem delete_node_cascade:
  assumes "has_node g n" and "applyAction g (Delete_node n) = (ok, g')"
  shows "ok \<and> \<not> has_node g' n
    \<and> (\<forall>e \<in> snd ` set (edges g'). source_id e \<noteq> n \<and> target_id e \<noteq> n)
    \<and> (\<forall>m \<in> snd ` set (nodes g'). parent_id m \<noteq> Some n)"
proof -
  from assms(2) have ok: "ok" and g': "g' = snd (applyAction g (Delete_node n))"
    by auto
  have "\<forall>e \<in> snd ` set (edges g'). \<not> touches n e"
    unfolding g' by (rule delete_node_edges)
  then have "\<forall>e \<in> snd ` set (edges g'). source_id e \<noteq> n \<and> target_id e \<noteq> n"
    by (simp add: touches_def)
  moreover have "\<forall>m \<in> snd ` set (nodes g'). parent_id m \<noteq> Some n"
    unfolding g' by (rule delete_node_parents)
  moreover have "\<not> has_node g' n"
    unfolding g' by (rule delete_node_gone)
  ultimately show ?thesis using ok by blast
qed

theorem delete_node_cascade_witness:
  "has_node sample_graph ''grp''
   \<and> applyAction sample_graph (Delete_node ''grp'')
       = (True, \<lparr>nodes = [(''api'', mk_node ''api'' Server None),
                          (''db'', mk_node ''db'' Database None)],
                 edges = [(''e3'', mk_edge ''e3'' ''api'' ''db'')]\<rparr>)
   \<and> source_id (mk_edge ''e3'' ''api'' ''db'') \<noteq> ''grp''
   \<and> target_id (mk_edge ''e3'' ''api'' ''db'') \<noteq> ''grp''
   \<and> parent_id (mk_node ''api'' Server None) \<noteq> Some ''grp''
   \<and> parent_id (mk_node ''db'' Database None) \<noteq> Some ''grp''"
proof -
  have h: "has_node sample_graph ''grp''"
    by (simp add: has_node_def sample_graph_def)
  have a: "applyAction sample_graph (Delete_node ''grp'')
       = (True, \<lparr>nodes = [(''api'', mk_node ''api'' Server None),
                          (''db'', mk_node ''db'' Database None)],
                 edges = [(''e3'', mk_edge ''e3'' ''api'' ''db'')]\<rparr>)"
    by (simp add: sample_graph_def mk_node_def mk_edge_def clear_parent_def touches_def
        AList.delete_eq)
  from delete_node_cascade [OF h a] h a show ?thesis by simp
qed

text \<open>
  C3 (no partial mutation on rejection). A \<open>create_edge\<close> whose source or target is not a
  node of the graph fails and returns the graph as it was.
\<close>

theorem create_edge_rejected:
  "\<not> has_node g (source_id e) \<or> \<not> has_node g (target_id e)
   \<Longrightarrow> applyAction g (Create_edge e) = (False, g)"
  by auto

theorem create_edge_rejected_witness:
  "\<not> has_node sample_graph ''cache''
   \<and> applyAction sample_graph (Create_edge (mk_edge ''e9'' ''api'' ''cache''))
       = (False, sample_graph)"
proof -
  have h: "\<not> has_node sample_graph (source_id (mk_edge ''e9'' ''api'' ''cache''))
      \<or> \<not> has_node sample_graph (target_id (mk_edge ''e9'' ''api'' ''cache''))"
    by (simp add: has_node_def sample_graph_def mk_edge_def)
  from create_edge_rejected [OF h] h show ?thesis
    by (simp add: has_node_def sample_graph_def mk_edge_def)
qed

section \<open>Properties of the Reasoner\<close>

lemma attempt_prompt_Suc:
  "validate (generate (Suc n) (attempt_prompt generate validate tr sm n)) = Inl err
   \<Longrightarrow> attempt_prompt generate validate tr sm (Suc n)
       = Corrective_request tr sm
           (generate (Suc n) (attempt_prompt generate validate tr sm n)) err"
  by (simp add: Let_def)

lemma reason_loop_exhausted:
  "(\<And>i. n < i \<Longrightarrow> i \<le> n + b \<Longrightarrow> isl (validate (attempt_output generate validate tr sm i)))
   \<Longrightarrow> reason_loop generate validate tr sm b n (attempt_prompt generate validate tr sm n)
       = (n + b, Inl ReasoningFailure)"
proof (induction b arbitrary: n)
  case 0
  then show ?case by simp
next
  case (Suc b)
  let ?raw = "generate (Suc n) (attempt_prompt generate validate tr sm n)"
  have "isl (validate (attempt_output generate validate tr sm (Suc n)))"
    by (rule Suc.prems) simp_all
  then obtain err where e: "validate ?raw = Inl err"
    by (auto simp: attempt_output_def isl_def)
  have "reason_loop generate validate tr sm b (Suc n)
          (attempt_prompt generate validate tr sm (Suc n)) = (Suc n + b, Inl ReasoningFailure)"
    by (rule Suc.IH) (simp_all add: Suc.prems)
  with e show ?case
    by (simp add: attempt_prompt_Suc [where validate = validate and generate = generate and tr = tr and sm = sm
        and n = n, OF e]
        del: attempt_prompt.simps)
qed

lemma reason_loop_first_valid:
  "n < k \<Longrightarrow> k \<le> n + b
   \<Longrightarrow> (\<And>i. n < i \<Longrightarrow> i < k \<Longrightarrow> isl (validate (attempt_output generate validate tr sm i)))
   \<Longrightarrow> validate (attempt_output generate validate tr sm k) = Inr acts
   \<Longrightarrow> reason_loop generate validate tr sm b n (attempt_prompt generate validate tr sm n)
       = (k, Inr acts)"
proof (induction b arbitrary: n)
  case 0
  then show ?case by simp
next
  case (Suc b)
  let ?raw = "generate (Suc n) (attempt_prompt generate validate tr sm n)"
  show ?case
  proof (cases "Suc n = k")
    case True
    with Suc.prems(4) have "validate ?raw = Inr acts"
      by (auto simp: attempt_output_def)
    with True show ?thesis by simp
  next
    case False
    with Suc.prems have lt: "Suc n < k" and le: "k \<le> Suc n + b" by simp_all
    have "isl (validate (attempt_output generate validate tr sm (Suc n)))"
      using lt by (intro Suc.prems(3)) simp_all
    then obtain err where e: "validate ?raw = Inl err"
      by (auto simp: attempt_output_def isl_def)
    have "reason_loop generate validate tr sm b (Suc n)
            (attempt_prompt generate validate tr sm (Suc n)) = (k, Inr acts)"
      using lt le Suc.prems(3,4) by (intro Suc.IH) simp_all
    with e show ?thesis
      by (simp add: attempt_prompt_Suc [where validate = validate and generate = generate and tr = tr and sm = sm
        and n = n, OF e]
        del: attempt_prompt.simps)
  qed
qed

lemma reason_loop_bounded:
  "reason_loop generate validate tr sm b n q = (m, r)
   \<Longrightarrow> m \<le> n + b \<and> (isl r \<longrightarrow> m = n + b) \<and> (\<not> isl r \<longrightarrow> n < m)"
proof (induction b arbitrary: n q)
  case 0
  then show ?case by auto
next
  case (Suc b)
  show ?case
  proof (cases "validate (generate (Suc n) q)")
    case (Inl err)
    with Suc.prems have "reason_loop generate validate tr sm b (Suc n)
        (Corrective_request tr sm (generate (Suc n) q) err) = (m, r)"
      by simp
    from Suc.IH [OF this] show ?thesis by auto
  next
    case (Inr acts)
    with Suc.prems show ?thesis by auto
  qed
qed

text \<open>
  C4 (retry budget). The first attempt is submitted the initial request, and each later
  attempt the corrective request built from the output and the validation error of the
  attempt before it; \<open>attempt_output i\<close> is the provider's answer at attempt \<open>i\<close> of that run.
  \<open>reason\<close> returns the validated action list of the first attempt within the budget whose
  answer is schema-valid, after exactly that many calls of the provider, whether the
  provider reacts to the number of the call or to the request it is sent. When the answers
  of all \<open>budget\<close> attempts are invalid, \<open>reason\<close> fails with \<open>ReasoningFailure\<close> after exactly
  \<open>budget\<close> calls. For any provider the number of calls never exceeds the budget, and a
  failure is only ever returned after exactly \<open>budget\<close> calls.
\<close>

theorem reason_retry_budget:
  "(1 \<le> k \<and> k \<le> budget
      \<and> (\<forall>i. 1 \<le> i \<and> i < k \<longrightarrow> isl (validate (attempt_output generate validate tr sm i)))
      \<and> validate (attempt_output generate validate tr sm k) = Inr acts
     \<longrightarrow> reason generate validate budget tr sm = (k, Inr acts))
   \<and> ((\<forall>i. 1 \<le> i \<and> i \<le> budget
          \<longrightarrow> isl (validate (attempt_output generate validate tr sm i)))
     \<longrightarrow> reason generate validate budget tr sm = (budget, Inl ReasoningFailure))
   \<and> attempt_output generate validate tr sm 1 = generate 1 (Initial_request tr sm)
   \<and> (validate (attempt_output generate validate tr sm i) = Inl err \<and> 1 \<le> i
     \<longrightarrow> attempt_output generate validate tr sm (Suc i)
         = generate (Suc i)
             (Corrective_request tr sm (attempt_output generate validate tr sm i) err))
   \<and> fst (reason generate validate budget tr sm) \<le> budget
   \<and> (isl (snd (reason generate validate budget tr sm))
     \<longrightarrow> fst (reason generate validate budget tr sm) = budget)"
proof (intro conjI impI)
  assume a: "1 \<le> k \<and> k \<le> budget
      \<and> (\<forall>i. 1 \<le> i \<and> i < k \<longrightarrow> isl (validate (attempt_output generate validate tr sm i)))
      \<and> validate (attempt_output generate validate tr sm k) = Inr acts"
  have "reason_loop generate validate tr sm budget 0 (attempt_prompt generate validate tr sm 0)
      = (k, Inr acts)"
    using a by (intro reason_loop_first_valid) auto
  then show "reason generate validate budget tr sm = (k, Inr acts)"
    by (simp add: reason_def)
next
  assume a: "\<forall>i. 1 \<le> i \<and> i \<le> budget
      \<longrightarrow> isl (validate (attempt_output generate validate tr sm i))"
  have "reason_loop generate validate tr sm budget 0 (attempt_prompt generate validate tr sm 0)
      = (0 + budget, Inl ReasoningFailure)"
    using a by (intro reason_loop_exhausted) auto
  then show "reason generate validate budget tr sm = (budget, Inl ReasoningFailure)"
    by (simp add: reason_def)
next
  show "attempt_output generate validate tr sm 1 = generate 1 (Initial_request tr sm)"
    by (simp add: attempt_output_def)
next
  assume a: "validate (attempt_output generate validate tr sm i) = Inl err \<and> 1 \<le> i"
  then obtain j where i: "i = Suc j"
    by (cases i) auto
  from a have e: "validate (generate (Suc j) (attempt_prompt generate validate tr sm j)) = Inl err"
    by (simp add: i attempt_output_def)
  from attempt_prompt_Suc [where validate = validate and generate = generate and tr = tr and sm = sm
        and n = j, OF e]
  show "attempt_output generate validate tr sm (Suc i)
      = generate (Suc i)
          (Corrective_request tr sm (attempt_output generate validate tr sm i) err)"
    by (simp add: i attempt_output_def del: attempt_prompt.simps)
next
  obtain m r where mr: "reason generate validate budget tr sm = (m, r)"
    by (cases "reason generate validate budget tr sm")
  from reason_loop_bounded [OF mr [unfolded reason_def]] mr
  show "fst (reason generate validate budget tr sm) \<le> budget" by simp
  assume "isl (snd (reason generate validate budget tr sm))"
  with reason_loop_bounded [OF mr [unfolded reason_def]] mr
  show "fst (reason generate validate budget tr sm) = budget" by simp
qed

lemma flaky_outputs:
  "attempt_output flaky_provider sample_validate tr sm (Suc 0) = ''I think''"
  "attempt_output flaky_provider sample_validate tr sm 2 = ''I think''"
  "attempt_output flaky_provider sample_validate tr sm 3 = ''[]''"
  by (simp_all add: attempt_output_def flaky_provider_def)

lemma correcting_outputs:
  "attempt_output correcting_provider sample_validate tr sm (Suc 0) = ''I think''"
  "attempt_output correcting_provider sample_validate tr sm 2 = ''[]''"
  by (simp_all add: attempt_output_def correcting_provider_def numeral_2_eq_2 Let_def)

lemma broken_outputs:
  "attempt_output broken_provider sample_validate tr sm i = ''I think''"
  by (simp add: attempt_output_def broken_provider_def)

theorem reason_retry_budget_witness:
  "reason flaky_provider sample_validate 3 ''add a box'' ''empty'' = (3, Inr [])
   \<and> reason correcting_provider sample_validate 3 ''add a box'' ''empty'' = (2, Inr [])
   \<and> reason broken_provider sample_validate 3 ''add a box'' ''empty''
       = (3, Inl ReasoningFailure)"
proof -
  let ?tr = "''add a box''" and ?sm = "''empty''"
  have a1: "isl (sample_validate (attempt_output flaky_provider sample_validate ?tr ?sm i))"
    if "1 \<le> i \<and> i < 3" for i
  proof -
    from that have "i = Suc 0 \<or> i = 2" by arith
    then show ?thesis
      by (auto simp: flaky_outputs sample_validate_def)
  qed
  have a: "1 \<le> (3::nat) \<and> (3::nat) \<le> 3
      \<and> (\<forall>i. 1 \<le> i \<and> i < 3
           \<longrightarrow> isl (sample_validate (attempt_output flaky_provider sample_validate ?tr ?sm i)))
      \<and> sample_validate (attempt_output flaky_provider sample_validate ?tr ?sm 3) = Inr []"
    using a1 by (simp add: flaky_outputs sample_validate_def)
  have c1: "isl (sample_validate (attempt_output correcting_provider sample_validate ?tr ?sm i))"
    if "1 \<le> i \<and> i < 2" for i
  proof -
    from that have "i = Suc 0" by arith
    then show ?thesis
      by (simp add: correcting_outputs sample_validate_def)
  qed
  have c: "1 \<le> (2::nat) \<and> (2::nat) \<le> 3
      \<and> (\<forall>i. 1 \<le> i \<and> i < 2
           \<longrightarrow> isl (sample_validate (attempt_output correcting_provider sample_validate ?tr ?sm i)))
      \<and> sample_validate (attempt_output correcting_provider sample_validate ?tr ?sm 2) = Inr []"
    using c1 by (simp add: correcting_outputs sample_validate_def)
  have b: "\<forall>i. 1 \<le> i \<and> i \<le> 3
      \<longrightarrow> isl (sample_validate (attempt_output broken_provider sample_validate ?tr ?sm i))"
    by (simp add: broken_outputs sample_validate_def)
  from reason_retry_budget [where k = 3 and budget = 3 and validate = sample_validate
      and generate = flaky_provider and acts = "[]" and tr = ?tr and sm = ?sm] a
  have "reason flaky_provider sample_validate 3 ?tr ?sm = (3, Inr [])"
    by blast
  moreover from reason_retry_budget [where k = 2 and budget = 3 and validate = sample_validate
      and generate = correcting_provider and acts = "[]" and tr = ?tr and sm = ?sm] c
  have "reason correcting_provider sample_validate 3 ?tr ?sm = (2, Inr [])"
    by blast
  moreover from reason_retry_budget [where budget = 3 and validate = sample_validate
      and generate = broken_provider and tr = ?tr and sm = ?sm] b
  have "reason broken_provider sample_validate 3 ?tr ?sm = (3, Inl ReasoningFailure)"
    by blast
  ultimately show ?thesis by simp
qed

section \<open>Properties of the Rate Limiter\<close>

lemma prune_all_kept: "(\<And>t. t \<in> set ts \<Longrightarrow> now \<le> t + window) \<Longrightarrow> prune window now ts = ts"
  by (simp add: prune_def)

lemma prune_all_old: "(\<And>t. t \<in> set ts \<Longrightarrow> t + window < now) \<Longrightarrow> prune window now ts = []"
  by (fastforce simp: prune_def filter_empty_conv)

lemma allow_all_in_window:
  "(\<And>t. t \<in> set ts \<Longrightarrow> lo \<le> t \<and> t \<le> lo + window)
   \<Longrightarrow> (\<And>x. x \<in> set (st i) \<Longrightarrow> lo \<le> x)
   \<Longrightarrow> fst (allow_all window maxn st i ts)
       = map (\<lambda>j. length (st i) + j < maxn) [0..<length ts]"
proof (induction ts arbitrary: st)
  case Nil
  then show ?case by simp
next
  case (Cons now rest)
  have now: "lo \<le> now" "now \<le> lo + window" using Cons.prems(1) [of now] by simp_all
  have kept: "prune window now (st i) = st i"
    using Cons.prems(2) now by (intro prune_all_kept) fastforce
  show ?case
  proof (cases "length (st i) < maxn")
    case True
    let ?st1 = "st(i := st i @ [now])"
    have a: "allow window maxn st i now = (True, ?st1)"
      using True kept by (simp add: allow_def)
    have "fst (allow_all window maxn ?st1 i rest)
       = map (\<lambda>j. length (?st1 i) + j < maxn) [0..<length rest]"
      using Cons.prems now by (intro Cons.IH) auto
    then have "fst (allow_all window maxn ?st1 i rest)
       = map (\<lambda>j. length (st i) + Suc j < maxn) [0..<length rest]"
      by simp
    with a True show ?thesis
      by (simp add: split_beta upt_conv_Cons map_Suc_upt [symmetric] del: upt_Suc)
  next
    case False
    let ?st1 = "st(i := st i)"
    have a: "allow window maxn st i now = (False, ?st1)"
      using False kept by (simp add: allow_def)
    have "fst (allow_all window maxn ?st1 i rest)
       = map (\<lambda>j. length (?st1 i) + j < maxn) [0..<length rest]"
      using Cons.prems now by (intro Cons.IH) auto
    then have "fst (allow_all window maxn ?st1 i rest)
       = map (\<lambda>j. length (st i) + Suc j < maxn) [0..<length rest]"
      using False by simp
    with a False show ?thesis
      by (simp add: split_beta upt_conv_Cons map_Suc_upt [symmetric] del: upt_Suc)
  qed
qed

lemma eleven_decisions:
  "map (\<lambda>j. (0::nat) + j < 10) [0..<11] = replicate 10 True @ [False]"
  by (simp add: upt_rec numeral_eq_Suc)

text \<open>
  C5 (sliding window, 60 time units, at most 10). A check keeps exactly the timestamps that
  are not older than the window; it admits iff fewer than 10 of them remain; the new
  timestamp is recorded on admission only, so that after a rejection the identity's
  sequence is the pruned one; the sequences of the other identities are untouched. Starting from an empty sequence, of any 11 checks made within
  one window the first 10 are admitted and the 11th is rejected; and once every recorded
  timestamp is older than the window a check is admitted again.
\<close>

theorem sliding_window_admission:
  "set (prune 60 now (st i)) = {t \<in> set (st i). now \<le> t + 60}
   \<and> fst (allow 60 10 st i now) = (length (prune 60 now (st i)) < 10)
   \<and> snd (allow 60 10 st i now) i
       = (if fst (allow 60 10 st i now) then prune 60 now (st i) @ [now]
          else prune 60 now (st i))
   \<and> (j \<noteq> i \<longrightarrow> snd (allow 60 10 st i now) j = st j)
   \<and> (st i = [] \<and> length ts = 11 \<and> (\<forall>t \<in> set ts. lo \<le> t \<and> t \<le> lo + 60)
       \<longrightarrow> fst (allow_all 60 10 st i ts) = replicate 10 True @ [False])
   \<and> ((\<forall>t \<in> set (st i). t + 60 < now) \<longrightarrow> fst (allow 60 10 st i now))"
proof (intro conjI impI)
  show "set (prune 60 now (st i)) = {t \<in> set (st i). now \<le> t + 60}"
    by (auto simp: prune_def)
  show "fst (allow 60 10 st i now) = (length (prune 60 now (st i)) < 10)"
    by (simp add: allow_def Let_def)
  show "snd (allow 60 10 st i now) i
       = (if fst (allow 60 10 st i now) then prune 60 now (st i) @ [now]
          else prune 60 now (st i))"
    by (simp add: allow_def Let_def)
  show "snd (allow 60 10 st i now) j = st j" if "j \<noteq> i"
    using that by (simp add: allow_def Let_def)
next
  assume a: "st i = [] \<and> length ts = 11 \<and> (\<forall>t \<in> set ts. lo \<le> t \<and> t \<le> lo + 60)"
  then have "fst (allow_all 60 10 st i ts) = map (\<lambda>j. length (st i) + j < 10) [0..<length ts]"
    by (intro allow_all_in_window [where lo = lo]) auto
  with a eleven_decisions show "fst (allow_all 60 10 st i ts) = replicate 10 True @ [False]"
    by simp
next
  assume "\<forall>t \<in> set (st i). t + 60 < now"
  then have "prune 60 now (st i) = []"
    by (intro prune_all_old) auto
  then show "fst (allow 60 10 st i now)"
    by (simp add: allow_def)
qed

lemma burst_run:
  "allow_all 60 10 no_requests ''u'' [0, 5, 10, 15, 20, 25, 30, 35, 40, 45, 50]
   = ([True, True, True, True, True, True, True, True, True, True, False],
      no_requests(''u'' := [0, 5, 10, 15, 20, 25, 30, 35, 40, 45]))"
  by (simp add: allow_def prune_def no_requests_def)

theorem sliding_window_admission_witness:
  "fst (allow_all 60 10 no_requests ''u'' [0, 5, 10, 15, 20, 25, 30, 35, 40, 45, 50])
     = [True, True, True, True, True, True, True, True, True, True, False]
   \<and> snd (allow_all 60 10 no_requests ''u'' [0, 5, 10, 15, 20, 25, 30, 35, 40, 45, 50]) ''u''
     = [0, 5, 10, 15, 20, 25, 30, 35, 40, 45]
   \<and> fst (allow 60 10 (no_requests(''u'' := [0, 5, 10, 15, 20, 25, 30, 35, 40, 45])) ''u'' 106)
   \<and> snd (allow 60 10 (no_requests(''u'' := [0, 5, 10, 15, 20, 25, 30, 35, 40, 45])) ''u'' 106) ''u''
     = [106]"
proof -
  let ?ts = "[0, 5, 10, 15, 20, 25, 30, 35, 40, 45, 50] :: nat list"
  let ?st = "no_requests(''u'' := [0, 5, 10, 15, 20, 25, 30, 35, 40, 45])"
  have h1: "no_requests ''u'' = [] \<and> length ?ts = 11 \<and> (\<forall>t \<in> set ?ts. 0 \<le> t \<and> t \<le> 0 + 60)"
    by (simp add: no_requests_def)
  have h2: "\<forall>t \<in> set (?st ''u''). t + 60 < 106"
    by simp
  from sliding_window_admission [where st = no_requests and i = "''u''" and ts = ?ts and lo = 0] h1
  have "fst (allow_all 60 10 no_requests ''u'' ?ts) = replicate 10 True @ [False]"
    by blast
  moreover have "replicate 10 True @ [False]
     = [True, True, True, True, True, True, True, True, True, True, False]"
    by (simp add: numeral_eq_Suc)
  ultimately have c1: "fst (allow_all 60 10 no_requests ''u'' ?ts)
     = [True, True, True, True, True, True, True, True, True, True, False]"
    by (rule trans)
  have c2: "snd (allow_all 60 10 no_requests ''u'' ?ts) ''u''
     = [0, 5, 10, 15, 20, 25, 30, 35, 40, 45]"
    by (simp only: burst_run snd_conv fun_upd_same)
  from sliding_window_admission [where now = 106 and st = ?st and i = "''u''"] h2
  have c3: "fst (allow 60 10 ?st ''u'' 106)"
    and "snd (allow 60 10 ?st ''u'' 106) ''u''
       = (if fst (allow 60 10 ?st ''u'' 106) then prune 60 106 (?st ''u'') @ [106]
          else prune 60 106 (?st ''u''))"
    by blast+
  then have "snd (allow 60 10 ?st ''u'' 106) ''u'' = prune 60 106 (?st ''u'') @ [106]"
    by (simp only: if_True)
  moreover have "prune 60 106 (?st ''u'') = []"
    by (simp add: prune_def)
  ultimately have c4: "snd (allow 60 10 ?st ''u'' 106) ''u'' = [106]"
    by (simp only: append_Nil)
  from c1 c2 c3 c4 show ?thesis by blast
qed

section \<open>Properties of the canvas client\<close>

lemmas sample_canvas_defs =
  reasoning_canvas_def listening_canvas_def connected_canvas_def stale_canvas_def
  unmounted_canvas_def ws_onopen_def session_effect_def onMount_def initial_canvas_def
  console_log_def closure_editor_def

subsection \<open>The sample states are reached\<close>

lemma reasoning_canvas_reached:
  "ws_onmessage (\<lambda>s. Some (Transcript [])) applier connected_canvas (String_data ''{}'')
   = reasoning_canvas"
  by (simp add: ws_onmessage_def sample_canvas_defs)

lemma listening_canvas_reached:
  "foldl ondataavailable (startRecording True connected_canvas) chunks
   = listening_canvas (filter (\<lambda>c. c \<noteq> []) chunks)"
proof -
  have "foldl ondataavailable (listening_canvas cs) chunks
      = listening_canvas (cs @ filter (\<lambda>c. c \<noteq> []) chunks)" for cs
    by (induction chunks arbitrary: cs) (simp_all add: ondataavailable_def listening_canvas_def)
  moreover have "startRecording True connected_canvas = listening_canvas []"
    by (simp add: startRecording_def sample_canvas_defs)
  ultimately show ?thesis by simp
qed

subsection \<open>The batch loop\<close>

lemma graph_after_0: "graph_after applier g acts 0 = g"
  by (simp add: graph_after_def)

lemma graph_after_Suc:
  "graph_after applier g (a # rest) (Suc k) = graph_after applier (snd (applier g a)) rest k"
  by (simp add: graph_after_def)

lemma apply_loop_in_order:
  "apply_loop applier g acts
   = (graph_after applier g acts (length acts),
      map (\<lambda>k. Log_applied (fst (applier (graph_after applier g acts k) (acts ! k)))
                  (action_kind (acts ! k)) (action_id (acts ! k)))
        [0..<length acts])"
proof (induction acts arbitrary: g)
  case Nil
  show ?case by (simp add: graph_after_0)
next
  case (Cons a rest)
  obtain ok g1 where a: "applier g a = (ok, g1)"
    by (cases "applier g a")
  have shift: "[0..<length (a # rest)] = 0 # map Suc [0..<length rest]"
    by (simp add: upt_conv_Cons map_Suc_upt del: upt_Suc)
  show ?case
    unfolding shift
    by (simp add: a Cons.IH [of g1] graph_after_0 graph_after_Suc)
qed

lemma apply_loop_graph:
  "fst (apply_loop applier g acts) = graph_after applier g acts (length acts)"
  by (simp add: apply_loop_in_order)

lemma scenario_run:
  "apply_loop applyAction createGraphState scenario_batch
   = (\<lparr>nodes = [(''a'', mk_node ''a'' Box None), (''b'', mk_node ''b'' Box None)],
       edges = [(''e'', mk_edge ''e'' ''a'' ''b'')]\<rparr>,
      [Log_applied True ''create_node'' ''a'', Log_applied True ''create_node'' ''b'',
       Log_applied True ''create_edge'' ''e''])"
  by (simp add: scenario_batch_def createGraphState_def mk_node_def mk_edge_def has_node_def)

text \<open>
  The handlers of the first render, still in place after the editor has mounted, drop the
  batch of the scenario: the editor is mounted, the closure's editor is \<open>null\<close>.
\<close>

lemma stale_handler_drops_batch:
  "editor stale_canvas = Some [] \<and> closure_editor stale_canvas = None
   \<and> ws_onmessage (\<lambda>s. Some (Actions scenario_batch)) applyAction
        (stale_canvas\<lparr>status := Reasoning\<rparr>) (String_data ''{}'')
     = stale_canvas\<lparr>status := Idle\<rparr>"
  by (simp add: ws_onmessage_def handleActions_def sample_canvas_defs scenario_batch_def)

text \<open>
  C1 (batch order, no abort), as the client has it. When the message handler's
  \<open>handleActions\<close> holds the mounted editor, the actions of a received list are applied one
  by one in the order supplied: the \<open>k\<close>-th action is applied to the graph that the \<open>k\<close>
  actions before it left behind, whether they succeeded or failed, its outcome is logged
  in its own line, and the graph of the client ends as the graph after the whole list.
  While no editor is mounted, a received list is dropped: only the status changes.
\<close>

theorem batch_applied_in_order:
  assumes "parse s = Some (Actions acts)"
  shows "(closure_editor st \<noteq> None
      \<longrightarrow> graphStateRef (ws_onmessage parse applier st (String_data s))
          = graph_after applier (graphStateRef st) acts (length acts)
        \<and> console (ws_onmessage parse applier st (String_data s))
          = console st
            @ (if acts = [] then []
               else [Log_received acts, Log_nodes_before (map fst (nodes (graphStateRef st)))]
                 @ map (\<lambda>k. Log_applied
                         (fst (applier (graph_after applier (graphStateRef st) acts k)
                                (acts ! k)))
                         (action_kind (acts ! k)) (action_id (acts ! k)))
                     [0..<length acts]
                 @ [Log_nodes_after
                      (map fst
                        (nodes (graph_after applier (graphStateRef st) acts (length acts))))]))
    \<and> (editor st = None
      \<longrightarrow> ws_onmessage parse applier st (String_data s) = st\<lparr>status := Idle\<rparr>)"
proof (intro conjI impI)
  have m: "ws_onmessage parse applier st (String_data s) = handleActions applier st acts"
    using assms by (simp add: ws_onmessage_def)
  show "ws_onmessage parse applier st (String_data s) = st\<lparr>status := Idle\<rparr>"
    if "editor st = None"
    using that by (simp add: m handleActions_def closure_editor_def)
  assume "closure_editor st \<noteq> None"
  then obtain y where e: "closure_editor st = Some y"
    by auto
  show "graphStateRef (ws_onmessage parse applier st (String_data s))
      = graph_after applier (graphStateRef st) acts (length acts)"
    using e
    by (cases "acts = []")
      (simp_all add: m handleActions_def console_log_def Let_def apply_loop_in_order
        graph_after_0 del: upt_Suc)
  show "console (ws_onmessage parse applier st (String_data s))
      = console st
        @ (if acts = [] then []
           else [Log_received acts, Log_nodes_before (map fst (nodes (graphStateRef st)))]
             @ map (\<lambda>k. Log_applied
                     (fst (applier (graph_after applier (graphStateRef st) acts k) (acts ! k)))
                     (action_kind (acts ! k)) (action_id (acts ! k)))
                 [0..<length acts]
             @ [Log_nodes_after
                  (map fst (nodes (graph_after applier (graphStateRef st) acts (length acts))))])"
    using e
    by (cases "acts = []")
      (simp_all add: m handleActions_def console_log_def Let_def apply_loop_in_order
        del: upt_Suc)
qed

theorem batch_applied_in_order_witness:
  "closure_editor reasoning_canvas = Some []
   \<and> graphStateRef (ws_onmessage (\<lambda>s. Some (Actions scenario_batch)) applyAction
        reasoning_canvas (String_data ''{}''))
      = \<lparr>nodes = [(''a'', mk_node ''a'' Box None), (''b'', mk_node ''b'' Box None)],
         edges = [(''e'', mk_edge ''e'' ''a'' ''b'')]\<rparr>
   \<and> console (ws_onmessage (\<lambda>s. Some (Actions scenario_batch)) applyAction
        reasoning_canvas (String_data ''{}''))
      = [Log_connected, Log_received scenario_batch, Log_nodes_before [],
         Log_applied True ''create_node'' ''a'', Log_applied True ''create_node'' ''b'',
         Log_applied True ''create_edge'' ''e'', Log_nodes_after [''a'', ''b'']]
   \<and> editor unmounted_canvas = None
   \<and> ws_onmessage (\<lambda>s. Some (Actions scenario_batch)) applyAction unmounted_canvas
        (String_data ''{}'') = unmounted_canvas\<lparr>status := Idle\<rparr>"
proof -
  let ?parse = "\<lambda>s :: string. Some (Actions scenario_batch)"
  have h: "closure_editor reasoning_canvas = Some []"
    by (simp add: sample_canvas_defs)
  have u: "editor unmounted_canvas = None"
    by (simp add: sample_canvas_defs)
  have ne: "scenario_batch \<noteq> []"
    by (simp add: scenario_batch_def)
  have g: "graphStateRef reasoning_canvas = createGraphState"
    "console reasoning_canvas = [Log_connected]"
    by (simp_all add: sample_canvas_defs)
  from scenario_run
  have r: "graph_after applyAction createGraphState scenario_batch (length scenario_batch)
      = \<lparr>nodes = [(''a'', mk_node ''a'' Box None), (''b'', mk_node ''b'' Box None)],
         edges = [(''e'', mk_edge ''e'' ''a'' ''b'')]\<rparr>"
    "map (\<lambda>k. Log_applied
                (fst (applyAction (graph_after applyAction createGraphState scenario_batch k)
                       (scenario_batch ! k)))
                (action_kind (scenario_batch ! k)) (action_id (scenario_batch ! k)))
       [0..<length scenario_batch]
     = [Log_applied True ''create_node'' ''a'', Log_applied True ''create_node'' ''b'',
        Log_applied True ''create_edge'' ''e'']"
    by (simp_all only: apply_loop_in_order prod.inject)
  from batch_applied_in_order [where parse = ?parse and s = "''{}''" and acts = scenario_batch
      and st = reasoning_canvas and applier = applyAction, OF refl] h
  have "graphStateRef (ws_onmessage ?parse applyAction reasoning_canvas (String_data ''{}''))
      = graph_after applyAction (graphStateRef reasoning_canvas) scenario_batch
          (length scenario_batch)"
    "console (ws_onmessage ?parse applyAction reasoning_canvas (String_data ''{}''))
      = console reasoning_canvas
        @ (if scenario_batch = [] then []
           else [Log_received scenario_batch,
                 Log_nodes_before (map fst (nodes (graphStateRef reasoning_canvas)))]
             @ map (\<lambda>k. Log_applied
                     (fst (applyAction
                            (graph_after applyAction (graphStateRef reasoning_canvas)
                               scenario_batch k)
                            (scenario_batch ! k)))
                     (action_kind (scenario_batch ! k)) (action_id (scenario_batch ! k)))
                 [0..<length scenario_batch]
             @ [Log_nodes_after
                  (map fst
                    (nodes (graph_after applyAction (graphStateRef reasoning_canvas)
                       scenario_batch (length scenario_batch))))])"
    by simp_all
  then have p: "graphStateRef (ws_onmessage ?parse applyAction reasoning_canvas (String_data ''{}''))
      = \<lparr>nodes = [(''a'', mk_node ''a'' Box None), (''b'', mk_node ''b'' Box None)],
         edges = [(''e'', mk_edge ''e'' ''a'' ''b'')]\<rparr>"
    "console (ws_onmessage ?parse applyAction reasoning_canvas (String_data ''{}''))
      = [Log_connected, Log_received scenario_batch, Log_nodes_before [],
         Log_applied True ''create_node'' ''a'', Log_applied True ''create_node'' ''b'',
         Log_applied True ''create_edge'' ''e'', Log_nodes_after [''a'', ''b'']]"
    by (simp_all only: g r ne if_False) (simp_all add: createGraphState_def)
  from batch_applied_in_order [where parse = ?parse and s = "''{}''" and acts = scenario_batch
      and st = unmounted_canvas and applier = applyAction, OF refl] u
  have "ws_onmessage ?parse applyAction unmounted_canvas (String_data ''{}'')
      = unmounted_canvas\<lparr>status := Idle\<rparr>"
    by blast
  with h u p show ?thesis by simp
qed

text \<open>
  With no editor mounted, the batch of the scenario, received in the state \<open>reasoning\<close>,
  leaves the graph empty and logs nothing, although its first action would have succeeded
  and changed the graph.
\<close>

theorem batch_dropped_without_editor:
  "editor unmounted_canvas = None
   \<and> graphStateRef (ws_onmessage (\<lambda>s. Some (Actions scenario_batch)) applyAction
        (unmounted_canvas\<lparr>status := Reasoning\<rparr>) (String_data ''{}'')) = createGraphState
   \<and> console (ws_onmessage (\<lambda>s. Some (Actions scenario_batch)) applyAction
        (unmounted_canvas\<lparr>status := Reasoning\<rparr>) (String_data ''{}''))
     = console unmounted_canvas
   \<and> fst (applyAction createGraphState (hd scenario_batch))
   \<and> snd (applyAction createGraphState (hd scenario_batch)) \<noteq> createGraphState"
  by (simp add: ws_onmessage_def handleActions_def sample_canvas_defs scenario_batch_def
      createGraphState_def)

subsection \<open>From actions to the rendered canvas\<close>

text \<open>
  C7 (rendering pipeline), as the client has it. A non-empty action list received, in
  whatever status, by a message handler whose \<open>handleActions\<close> holds the mounted editor sets
  the status to \<open>rendering\<close>, applies the actions in order, and then asks \<open>layoutGraph\<close> for
  the layout of the resulting graph; when that layout arrives and is drawn, the editor holds
  the drawing and the status is back to \<open>idle\<close>. An empty list, or a list received while no
  editor is mounted, sets the status to \<open>idle\<close> and does nothing else.
\<close>

theorem actions_render_pipeline:
  fixes st :: "('e, 's, 'd) canvas"
    and parse :: "string \<Rightarrow> server_msg option"
    and applier :: "graph_state \<Rightarrow> action \<Rightarrow> bool \<times> graph_state"
    and s :: string
  assumes "parse s = Some (Actions acts)"
  defines "st1 \<equiv> ws_onmessage parse applier st (String_data s)"
  shows "(acts \<noteq> [] \<and> closure_editor st = Some e
      \<longrightarrow> status st1 = Rendering
        \<and> graphStateRef st1 = graph_after applier (graphStateRef st) acts (length acts)
        \<and> layoutRequests st1 = layoutRequests st @ [graphStateRef st1]
        \<and> (renderLayout e (layout_nodes l) (layout_edges l) = Some e'
            \<longrightarrow> editor (layout_settled renderLayout st1 (Resolved l)) = Some e'
              \<and> status (layout_settled renderLayout st1 (Resolved l)) = Idle))
    \<and> (acts = [] \<or> editor st = None \<longrightarrow> st1 = st\<lparr>status := Idle\<rparr>)"
proof (intro conjI impI)
  have st1: "st1 = handleActions applier st acts"
    using assms(1) by (simp add: st1_def ws_onmessage_def)
  show "st1 = st\<lparr>status := Idle\<rparr>" if "acts = [] \<or> editor st = None"
    using that by (auto simp: st1 handleActions_def closure_editor_def)
  assume a: "acts \<noteq> [] \<and> closure_editor st = Some e"
  then have ed: "editor st = Some e"
    by (simp add: closure_editor_def split: if_splits)
  obtain g entries where l: "apply_loop applier (graphStateRef st) acts = (g, entries)"
    by (cases "apply_loop applier (graphStateRef st) acts")
  then have g: "g = graph_after applier (graphStateRef st) acts (length acts)"
    using apply_loop_graph [of applier "graphStateRef st" acts] by simp
  have b: "status st1 = Rendering" "graphStateRef st1 = g"
    "layoutRequests st1 = layoutRequests st @ [g]" "editor st1 = Some e"
    using a ed l by (simp_all add: st1 handleActions_def console_log_def Let_def)
  from b g show "status st1 = Rendering"
    "graphStateRef st1 = graph_after applier (graphStateRef st) acts (length acts)"
    "layoutRequests st1 = layoutRequests st @ [graphStateRef st1]"
    by simp_all
  assume "renderLayout e (layout_nodes l) (layout_edges l) = Some e'"
  then show "editor (layout_settled renderLayout st1 (Resolved l)) = Some e'"
    "status (layout_settled renderLayout st1 (Resolved l)) = Idle"
    using b(4)
    by (simp_all add: layout_settled_def console_log_def Let_def setTimeout_def clearTimeout_def
        split: option.split)
qed

theorem actions_render_pipeline_witness:
  "closure_editor reasoning_canvas = Some [] \<and> scenario_batch \<noteq> []
   \<and> status (ws_onmessage (\<lambda>s. Some (Actions scenario_batch)) applyAction reasoning_canvas
        (String_data ''{}'')) = Rendering
   \<and> layoutRequests (ws_onmessage (\<lambda>s. Some (Actions scenario_batch)) applyAction
        reasoning_canvas (String_data ''{}''))
     = [\<lparr>nodes = [(''a'', mk_node ''a'' Box None), (''b'', mk_node ''b'' Box None)],
         edges = [(''e'', mk_edge ''e'' ''a'' ''b'')]\<rparr>]
   \<and> editor (layout_settled sample_render
        (ws_onmessage (\<lambda>s. Some (Actions scenario_batch)) applyAction reasoning_canvas
           (String_data ''{}'')) (Resolved sample_layout))
     = Some [([''a'', ''b''], [''e''])]
   \<and> status (layout_settled sample_render
        (ws_onmessage (\<lambda>s. Some (Actions scenario_batch)) applyAction reasoning_canvas
           (String_data ''{}'')) (Resolved sample_layout)) = Idle
   \<and> ws_onmessage (\<lambda>s. Some (Actions [])) applyAction reasoning_canvas (String_data ''{}'')
     = reasoning_canvas\<lparr>status := Idle\<rparr>"
proof -
  let ?parse = "\<lambda>s :: string. Some (Actions scenario_batch)"
  let ?st1 = "ws_onmessage ?parse applyAction reasoning_canvas (String_data ''{}'')"
  have h: "scenario_batch \<noteq> [] \<and> closure_editor reasoning_canvas = Some []"
    by (simp add: sample_canvas_defs scenario_batch_def)
  have r: "sample_render [] (layout_nodes sample_layout) (layout_edges sample_layout)
      = Some [([''a'', ''b''], [''e''])]"
    by (simp add: sample_render_def sample_layout_def)
  have g: "graphStateRef reasoning_canvas = createGraphState" "layoutRequests reasoning_canvas = []"
    by (simp_all add: sample_canvas_defs)
  from scenario_run
  have f: "graph_after applyAction createGraphState scenario_batch (length scenario_batch)
      = \<lparr>nodes = [(''a'', mk_node ''a'' Box None), (''b'', mk_node ''b'' Box None)],
         edges = [(''e'', mk_edge ''e'' ''a'' ''b'')]\<rparr>"
    by (simp only: apply_loop_in_order prod.inject)
  from actions_render_pipeline [where parse = ?parse and s = "''{}''" and acts = scenario_batch
      and st = reasoning_canvas and e = "[]" and applier = applyAction
      and renderLayout = sample_render and l = sample_layout
      and e' = "[([''a'', ''b''], [''e''])]", OF refl] h r
  have "status ?st1 = Rendering"
    "graphStateRef ?st1
       = graph_after applyAction (graphStateRef reasoning_canvas) scenario_batch
           (length scenario_batch)"
    "layoutRequests ?st1 = layoutRequests reasoning_canvas @ [graphStateRef ?st1]"
    "editor (layout_settled sample_render ?st1 (Resolved sample_layout))
       = Some [([''a'', ''b''], [''e''])]"
    "status (layout_settled sample_render ?st1 (Resolved sample_layout)) = Idle"
    by blast+
  moreover
  from actions_render_pipeline [where parse = "\<lambda>s. Some (Actions [])" and s = "''{}''"
      and acts = "[]" and st = reasoning_canvas and applier = applyAction, OF refl]
  have "ws_onmessage (\<lambda>s. Some (Actions [])) applyAction reasoning_canvas (String_data ''{}'')
     = reasoning_canvas\<lparr>status := Idle\<rparr>"
    by blast
  ultimately show ?thesis
    using h by (simp add: g f)
qed

text \<open>
  An empty action list received in the state \<open>reasoning\<close>, by a handler that holds the
  mounted editor, goes to \<open>idle\<close> without passing through \<open>rendering\<close> and without a layout
  request.
\<close>

theorem empty_batch_skips_rendering:
  "status (ws_onmessage (\<lambda>s. Some (Actions [])) applyAction reasoning_canvas
        (String_data ''{}'')) = Idle
   \<and> layoutRequests (ws_onmessage (\<lambda>s. Some (Actions [])) applyAction reasoning_canvas
        (String_data ''{}'')) = []
   \<and> status reasoning_canvas = Reasoning \<and> closure_editor reasoning_canvas = Some []"
  by (simp add: ws_onmessage_def handleActions_def sample_canvas_defs)

subsection \<open>The error state\<close>

lemma server_error_auto_clears:
  assumes "parse s = Some (Server_error m)"
  shows "status (ws_onmessage parse applier st (String_data s)) = Error"
    and "timers (ws_onmessage parse applier st (String_data s))
      = timers st @ [\<lparr>timer_id = next_timer st, delay = 3000, callback = Set_status_idle\<rparr>]"
  using assms by (simp_all add: ws_onmessage_def setTimeout_def console_log_def)

lemma layout_catch_no_timer:
  "status (layout_catch st) = Error \<and> timers (layout_catch st) = timers st"
  by (simp add: layout_catch_def console_log_def)

lemma layout_rejected_no_timer:
  "status (layout_settled renderLayout st Rejected) = Error
   \<and> timers (layout_settled renderLayout st Rejected) = timers st"
  by (simp add: layout_settled_def layout_catch_def console_log_def)

lemma no_timer_no_change:
  "timers st = [] \<Longrightarrow> timeout_fires getSnapshot extract serialize st t = st"
  by (simp add: timeout_fires_def)

lemma handleActions_timers: "timers (handleActions applier st acts) = timers st"
  by (simp add: handleActions_def console_log_def Let_def split_beta)

text \<open>
  C6 (the error state clears by itself). An \<open>error\<close> message of the server sets the status
  to \<open>error\<close> and schedules the return to \<open>idle\<close> after 3000 ms. A rejected layout and an
  error of the socket set the status to \<open>error\<close> as well, and schedule nothing: with no
  timeout pending, nothing brings the status back to \<open>idle\<close>. The statement runs the
  three paths from a connected client in the state \<open>reasoning\<close> with no timeout pending,
  and then lets the timeout numbered 1 fire.
\<close>

theorem layout_error_never_clears:
  "status (layout_settled sample_render
      (handleActions applyAction reasoning_canvas scenario_batch) Rejected) = Error
   \<and> timers (layout_settled sample_render
      (handleActions applyAction reasoning_canvas scenario_batch) Rejected) = []
   \<and> status (ws_onerror reasoning_canvas) = Error
   \<and> timers (ws_onerror reasoning_canvas) = []
   \<and> status (ws_onmessage (\<lambda>s. Some (Server_error ''rate limit'')) applyAction
        reasoning_canvas (String_data ''{}'')) = Error
   \<and> timers (ws_onmessage (\<lambda>s. Some (Server_error ''rate limit'')) applyAction
        reasoning_canvas (String_data ''{}''))
      = [\<lparr>timer_id = 1, delay = 3000, callback = Set_status_idle\<rparr>]
   \<and> status (timeout_fires (\<lambda>e. ()) (\<lambda>d. createGraphState) id
        (ws_onmessage (\<lambda>s. Some (Server_error ''rate limit'')) applyAction
           reasoning_canvas (String_data ''{}'')) 1) = Idle
   \<and> status (timeout_fires (\<lambda>e. ()) (\<lambda>d. createGraphState) id
        (layout_settled sample_render
           (handleActions applyAction reasoning_canvas scenario_batch) Rejected) 1) = Error"
proof -
  have t: "timers reasoning_canvas = []" "next_timer reasoning_canvas = 1"
    by (simp_all add: sample_canvas_defs)
  let ?bad = "layout_settled sample_render
      (handleActions applyAction reasoning_canvas scenario_batch) Rejected"
  have bad: "status ?bad = Error" "timers ?bad = []"
    using t by (simp_all add: layout_rejected_no_timer handleActions_timers)
  then have "status (timeout_fires (\<lambda>e. ()) (\<lambda>d. createGraphState) id ?bad 1) = Error"
    by (simp add: no_timer_no_change)
  moreover have "status (ws_onerror reasoning_canvas) = Error"
    "timers (ws_onerror reasoning_canvas) = []"
    using t by (simp_all add: ws_onerror_def console_log_def)
  moreover
  let ?good = "ws_onmessage (\<lambda>s. Some (Server_error ''rate limit'')) applyAction
      reasoning_canvas (String_data ''{}'')"
  have "status ?good = Error"
    "timers ?good = [\<lparr>timer_id = 1, delay = 3000, callback = Set_status_idle\<rparr>]"
    using t by (simp_all add: ws_onmessage_def setTimeout_def console_log_def)
  moreover from this(2)
  have "status (timeout_fires (\<lambda>e. ()) (\<lambda>d. createGraphState) id ?good 1) = Idle"
    by (simp add: timeout_fires_def clearTimeout_def)
  ultimately show ?thesis
    using bad by simp
qed

subsection \<open>Recording\<close>

lemma chunks_accumulate:
  "audioChunks (foldl ondataavailable st chunks) = audioChunks st @ filter (\<lambda>c. c \<noteq> []) chunks"
  by (induction chunks arbitrary: st) (simp_all add: ondataavailable_def)

lemma chunks_frame:
  "status (foldl ondataavailable st chunks) = status st
   \<and> sent (foldl ondataavailable st chunks) = sent st
   \<and> wsRef (foldl ondataavailable st chunks) = wsRef st"
  by (induction chunks arbitrary: st) (simp_all add: ondataavailable_def)

lemma concat_nonempty_chunks: "concat (filter (\<lambda>c. c \<noteq> []) chunks) = concat chunks"
  by (induction chunks) simp_all

text \<open>
  C8 (empty capture). When the accumulated audio is empty at \<open>onstop\<close>, the status becomes
  \<open>idle\<close> and nothing is sent on the socket, so neither the transcription service nor the
  Reasoner is reached; the status becomes \<open>transcribing\<close> only with a non-empty buffer. For
  a whole capture round of a connected client whose chunks are all empty: the status is
  \<open>listening\<close> while the chunks arrive, and \<open>idle\<close> after the stop, with nothing sent.
\<close>

theorem empty_capture_returns_to_idle:
  "(concat (audioChunks st) = []
      \<longrightarrow> status (onstop ser st) = Idle \<and> sent (onstop ser st) = sent st)
   \<and> (status (onstop ser st) = Transcribing \<longrightarrow> concat (audioChunks st) \<noteq> [])
   \<and> (wsRef st \<noteq> None \<and> isConnected st \<and> concat chunks = []
      \<longrightarrow> status (foldl ondataavailable (startRecording True st) chunks) = Listening
        \<and> status (capture_round ser chunks st) = Idle
        \<and> sent (capture_round ser chunks st) = sent st)"
proof (intro conjI impI)
  assume "concat (audioChunks st) = []"
  then show "status (onstop ser st) = Idle" "sent (onstop ser st) = sent st"
    by (simp_all add: onstop_def)
next
  assume "status (onstop ser st) = Transcribing"
  then show "concat (audioChunks st) \<noteq> []"
    by (auto simp: onstop_def Let_def split: if_splits)
next
  assume a: "wsRef st \<noteq> None \<and> isConnected st \<and> concat chunks = []"
  let ?st1 = "startRecording True st"
  let ?st2 = "foldl ondataavailable ?st1 chunks"
  have s1: "status ?st1 = Listening" "audioChunks ?st1 = []" "sent ?st1 = sent st"
    using a by (auto simp: startRecording_def)
  show "status ?st2 = Listening"
    using s1 by (simp add: chunks_frame)
  have "concat (audioChunks (stopRecording ?st2)) = []"
    using a s1 by (simp add: stopRecording_def chunks_accumulate concat_nonempty_chunks)
  then have "status (onstop ser (stopRecording ?st2)) = Idle"
    "sent (onstop ser (stopRecording ?st2)) = sent (stopRecording ?st2)"
    by (simp_all add: onstop_def)
  then show "status (capture_round ser chunks st) = Idle"
    "sent (capture_round ser chunks st) = sent st"
    using s1 by (simp_all add: capture_round_def stopRecording_def chunks_frame)
qed


theorem empty_capture_returns_to_idle_witness:
  "status (listening_canvas []) = Listening
   \<and> onstop id (listening_canvas []) = (listening_canvas [])\<lparr>status := Idle\<rparr>
   \<and> status (onstop id (listening_canvas [[82, 73, 70, 70]])) = Transcribing
   \<and> status (capture_round id [[], []] reasoning_canvas) = Idle
   \<and> sent (capture_round id [[], []] reasoning_canvas) = []"
proof -
  let ?st = "listening_canvas [] :: ((string list \<times> string list) list, graph_state, unit) canvas"
  have h1: "concat (audioChunks ?st) = []"
    by (simp add: sample_canvas_defs)
  have h2: "wsRef reasoning_canvas \<noteq> None \<and> isConnected reasoning_canvas
      \<and> concat [[], []] = ([] :: blob)"
    by (simp add: sample_canvas_defs)
  have s: "sent reasoning_canvas = []"
    by (simp add: sample_canvas_defs)
  from empty_capture_returns_to_idle [where st = ?st and ser = id] h1
  have "status (onstop id ?st) = Idle" "sent (onstop id ?st) = sent ?st"
    by blast+
  moreover
  from empty_capture_returns_to_idle
    [where st = reasoning_canvas and ser = id and chunks = "[[], []]"] h2
  have "status (capture_round id [[], []] reasoning_canvas) = Idle"
    "sent (capture_round id [[], []] reasoning_canvas) = sent reasoning_canvas"
    by blast+
  ultimately show ?thesis
    by (simp add: s) (simp add: onstop_def sample_canvas_defs Let_def)
qed

text \<open>
  C10 (graph context before the audio). When the recorder stops with a non-empty buffer and
  an open socket, the client appends exactly two frames to what it has sent: first the JSON
  message of kind \<open>graph_sync\<close> carrying the serialized current graph, then the binary audio
  blob. The kind \<open>graph_sync\<close> is not among the kinds of the specified wire protocol.
\<close>

theorem graph_sync_precedes_audio:
  fixes st :: "('e, 's, 'd) canvas"
  assumes "wsRef st = Some OPEN" and "concat (audioChunks st) \<noteq> []"
  shows "sent (onstop ser st)
      = sent st @ [Graph_sync (ser (graphStateRef st)), Audio (concat (audioChunks st))]
    \<and> status (onstop ser st) = Transcribing
    \<and> outbound_kind (Graph_sync (ser (graphStateRef st)) :: ('s, 'd) outbound) = Some ''graph_sync''
    \<and> ''graph_sync'' \<notin> set spec_wire_kinds"
  using assms by (simp add: onstop_def Let_def spec_wire_kinds_def)

theorem graph_sync_precedes_audio_witness:
  "wsRef (listening_canvas [[82, 73], [70, 70]]) = Some OPEN
   \<and> sent (onstop id (listening_canvas [[82, 73], [70, 70]]))
     = [Graph_sync createGraphState, Audio [82, 73, 70, 70]]"
proof -
  let ?st = "listening_canvas [[82, 73], [70, 70]]
    :: ((string list \<times> string list) list, graph_state, unit) canvas"
  have h: "wsRef ?st = Some OPEN" "concat (audioChunks ?st) \<noteq> []"
    by (simp_all add: sample_canvas_defs)
  from graph_sync_precedes_audio [OF h, of id] h(1) show ?thesis
    by (simp add: sample_canvas_defs)
qed


subsection \<open>Inbound text that is not JSON\<close>

text \<open>
  C9 (raw text as transcript). A string message that fails JSON parsing and does not start
  with \<open>{\<close> is stored as the transcript and sets the status to \<open>reasoning\<close>: the same
  state as after a well-formed \<open>transcript\<close> message carrying that text.
\<close>

theorem unparsable_text_is_transcript:
  assumes "parse s = None" and "\<not> startsWith s ''{''"
  shows "ws_onmessage parse applier st (String_data s) = st\<lparr>transcript := s, status := Reasoning\<rparr>
    \<and> (parse' s' = Some (Transcript s)
       \<longrightarrow> ws_onmessage parse applier st (String_data s)
           = ws_onmessage parse' applier st (String_data s'))"
  using assms by (simp add: ws_onmessage_def onmessage_catch_def)

lemma null_text_is_transcript:
  "parse ''null'' = Some Null_msg
   \<Longrightarrow> ws_onmessage parse applier st (String_data ''null'')
       = st\<lparr>transcript := ''null'', status := Reasoning\<rparr>"
  by (simp add: ws_onmessage_def onmessage_catch_def startsWith_def)

theorem unparsable_text_is_transcript_witness:
  "\<not> startsWith ''add a database'' ''{''
   \<and> ws_onmessage (\<lambda>s. None) applyAction (listening_canvas []) (String_data ''add a database'')
     = (listening_canvas [])\<lparr>transcript := ''add a database'', status := Reasoning\<rparr>
   \<and> ws_onmessage (\<lambda>s. None) applyAction (listening_canvas []) (String_data ''add a database'')
     = ws_onmessage (\<lambda>s. Some (Transcript ''add a database'')) applyAction (listening_canvas [])
         (String_data ''{}'')"
proof -
  have h: "\<not> startsWith ''add a database'' ''{''"
    by (simp add: startsWith_def)
  have p: "(\<lambda>s. Some (Transcript ''add a database'')) ''{}'' = Some (Transcript ''add a database'')"
    by simp
  from unparsable_text_is_transcript [where parse = "\<lambda>s. None" and s = "''add a database''"
      and parse' = "\<lambda>s. Some (Transcript ''add a database'')" and s' = "''{}''"
      and applier = applyAction and st = "listening_canvas []", OF refl h] p h
  show ?thesis by blast
qed

end
